theory Spec2Isabelle
  imports Main
begin

section \<open>The packaging script \<^verbatim>\<open>setup.py\<close>\<close>

text \<open>
  The repository is one script:
  \<^verbatim>\<open>
  with open("requirements.txt") as f:
      requirements = f.read().splitlines()

  setup(
      name="Machine Efficiency Prediction",
      version="0.1",
      author="David G",
      packages=find_packages(),
      install_requires = requirements,
  )
  \<close>
  It opens the manifest in text mode, reads all of it, splits it with
  \<^verbatim>\<open>str.splitlines\<close> and passes the list, unchanged, to \<^verbatim>\<open>setup\<close>.
\<close>

subsection \<open>Python strings\<close>

text \<open>
  A Python \<^verbatim>\<open>str\<close> is a sequence of Unicode code points. Some of the line boundaries of
  \<^verbatim>\<open>str.splitlines\<close> lie beyond one byte, so a string is a list of code points.
  \<open>str\<close> reads an ASCII literal as such a string.
\<close>

type_synonym codepoint = nat
type_synonym pystr = "codepoint list"

definition str :: "string \<Rightarrow> pystr" where
  "str s = map of_char s"

definition LF :: codepoint where "LF = 10"
definition CR :: codepoint where "CR = 13"

subsection \<open>Reading a file in text mode\<close>

text \<open>
  \<^verbatim>\<open>open(path)\<close> opens for reading in text mode with \<^verbatim>\<open>newline=None\<close>: on input the
  endings \<^verbatim>\<open>\r\n\<close> and \<^verbatim>\<open>\r\<close> are translated to \<^verbatim>\<open>\n\<close> before the text reaches the
  caller.
\<close>

fun universal_newlines :: "pystr \<Rightarrow> pystr" where
  "universal_newlines [] = []"
| "universal_newlines [c] = [if c = CR then LF else c]"
| "universal_newlines (c # d # s) =
     (if c = CR \<and> d = LF then LF # universal_newlines s
      else if c = CR then LF # universal_newlines (d # s)
      else c # universal_newlines (d # s))"

subsection \<open>\<^verbatim>\<open>str.splitlines\<close>\<close>

text \<open>
  The line boundaries of \<^verbatim>\<open>str.splitlines\<close>: \<^verbatim>\<open>\n\<close>, \<^verbatim>\<open>\r\<close>, \<^verbatim>\<open>\v\<close>, \<^verbatim>\<open>\f\<close>,
  \<^verbatim>\<open>\x1c\<close>, \<^verbatim>\<open>\x1d\<close>, \<^verbatim>\<open>\x1e\<close>, \<^verbatim>\<open>\x85\<close>, \<^verbatim>\<open>\u2028\<close>, \<^verbatim>\<open>\u2029\<close>; \<^verbatim>\<open>\r\n\<close> is one
  boundary.
\<close>

definition is_linebreak :: "codepoint \<Rightarrow> bool" where
  "is_linebreak c \<longleftrightarrow> c \<in> {10, 11, 12, 13, 28, 29, 30, 133, 8232, 8233}"

text \<open>
  After a line, the boundary is skipped, \<^verbatim>\<open>\r\n\<close> read as one boundary. The argument
  is what is left of the string from the boundary on (empty when the string ended
  without one).
\<close>

fun skip_break :: "pystr \<Rightarrow> pystr" where
  "skip_break [] = []"
| "skip_break [c] = []"
| "skip_break (c # d # s) = (if c = CR \<and> d = LF then s else d # s)"

text \<open>
  The loop of \<^verbatim>\<open>splitlines\<close> (with \<^verbatim>\<open>keepends\<close> false): while text is left, scan to the
  next boundary, add the text before it as a line, and go on behind the boundary. An
  empty string gives no line, and a boundary at the very end opens no further line.
\<close>

function splitlines :: "pystr \<Rightarrow> pystr list" where
  "splitlines s =
     (if s = [] then []
      else takeWhile (\<lambda>c. \<not> is_linebreak c) s
             # splitlines (skip_break (dropWhile (\<lambda>c. \<not> is_linebreak c) s)))"
  by pat_completeness auto

termination splitlines
proof (relation "measure length")
  show "wf (measure length)"
    by simp
next
  fix s :: pystr
  assume nonempty: "s \<noteq> []"
  let ?rest = "dropWhile (\<lambda>c. \<not> is_linebreak c) s"
  have skip: "length (skip_break t) < length t" if "t \<noteq> []" for t
    using that by (induction t rule: skip_break.induct) auto
  have "length (skip_break ?rest) < length s"
  proof (cases "?rest = []")
    case True
    have "length (skip_break ?rest) = 0"
      unfolding True by simp
    with nonempty show ?thesis
      by simp
  next
    case False
    then have "length (skip_break ?rest) < length ?rest"
      by (rule skip)
    also have "\<dots> \<le> length s"
      by (rule length_dropWhile_le)
    finally show ?thesis .
  qed
  then show "(skip_break ?rest, s) \<in> measure length"
    by simp
qed

declare splitlines.simps [simp del]

subsection \<open>The script\<close>

text \<open>The keyword arguments of the call of \<^verbatim>\<open>setup\<close>.\<close>

record metadata =
  name :: pystr
  version :: pystr
  author :: pystr
  packages :: "pystr list"
  install_requires :: "pystr list"

text \<open>
  Opening or reading the manifest raises when the file is missing or cannot be read
  (\<^verbatim>\<open>OSError\<close> and its kin); the spec calls the failure ManifestUnreadable.
\<close>

datatype error = ManifestUnreadable

text \<open>
  What the script sees and changes: the text files it can read, by path (their decoded
  contents, before the translation of line endings); the packages that
  \<^verbatim>\<open>find_packages()\<close> discovers in the source tree; and the calls of \<^verbatim>\<open>setup\<close> made so
  far, oldest first.
\<close>

record world =
  files :: "pystr \<rightharpoonup> pystr"
  found_packages :: "pystr list"
  registered :: "metadata list"

definition open_read :: "world \<Rightarrow> pystr \<Rightarrow> error + pystr" where
  "open_read w path =
     (case files w path of
        None \<Rightarrow> Inl ManifestUnreadable
      | Some raw \<Rightarrow> Inr (universal_newlines raw))"

definition find_packages :: "world \<Rightarrow> pystr list" where
  "find_packages w = found_packages w"

definition setup_call :: "metadata \<Rightarrow> world \<Rightarrow> world" where
  "setup_call m w = w\<lparr>registered := registered w @ [m]\<rparr>"

text \<open>The requirements that the \<^verbatim>\<open>with\<close> block computes from the contents of the file.\<close>

definition requirements_of :: "pystr \<Rightarrow> pystr list" where
  "requirements_of raw = splitlines (universal_newlines raw)"

text \<open>
  The script. An exception in the \<^verbatim>\<open>with\<close> block is not caught: it ends the script
  before \<^verbatim>\<open>setup\<close> is called. The call of \<^verbatim>\<open>setup\<close> is recorded with its arguments:
  this is what the script passes on.
\<close>

definition setup_py :: "world \<Rightarrow> (error + unit) \<times> world" where
  "setup_py w =
     (case open_read w (str ''requirements.txt'') of
        Inl e \<Rightarrow> (Inl e, w)
      | Inr contents \<Rightarrow>
          let requirements = splitlines contents in
          (Inr (),
           setup_call \<lparr>name = str ''Machine Efficiency Prediction'',
                       version = str ''0.1'',
                       author = str ''David G'',
                       packages = find_packages w,
                       install_requires = requirements\<rparr> w))"

subsection \<open>The check inside \<^verbatim>\<open>setup\<close>\<close>

text \<open>
  \<^verbatim>\<open>setup\<close> is the host's function. Before it runs any command it checks its arguments and
  raises when one is invalid; setuptools reads each entry of \<^verbatim>\<open>install_requires\<close> as a
  requirement specifier and refuses the list when an entry is none. What the host accepts
  is not in the repository: it is a parameter, a predicate on the record passed. A call
  that the host refuses registers nothing.
\<close>

type_synonym host = "metadata \<Rightarrow> bool"

datatype setup_error = SetupRejected

definition setup_checked :: "host \<Rightarrow> metadata \<Rightarrow> world \<Rightarrow> (setup_error + unit) \<times> world" where
  "setup_checked accepts m w =
     (if accepts m then (Inr (), setup_call m w) else (Inl SetupRejected, w))"

text \<open>
  The script again, with the host's check in the call of \<^verbatim>\<open>setup\<close>: it fails in the
  \<^verbatim>\<open>with\<close> block, or inside \<^verbatim>\<open>setup\<close>, or succeeds.
\<close>

definition setup_py_checked :: "host \<Rightarrow> world \<Rightarrow> (error + setup_error + unit) \<times> world" where
  "setup_py_checked accepts w =
     (case open_read w (str ''requirements.txt'') of
        Inl e \<Rightarrow> (Inl e, w)
      | Inr contents \<Rightarrow>
          let requirements = splitlines contents;
              (result, w') =
                setup_checked accepts
                  \<lparr>name = str ''Machine Efficiency Prediction'',
                   version = str ''0.1'',
                   author = str ''David G'',
                   packages = find_packages w,
                   install_requires = requirements\<rparr> w
          in (Inr result, w'))"

text \<open>
  One host, for an example: it refuses a requirement that ends in the operator \<^verbatim>\<open>==\<close>
  with no version behind it, such as \<^verbatim>\<open>numpy==\<close>, which is no requirement specifier
  and which setuptools refuses; this host accepts every other list.
\<close>

definition ends_with_operator :: "pystr \<Rightarrow> bool" where
  "ends_with_operator e \<longleftrightarrow> 2 \<le> length e \<and> drop (length e - 2) e = str ''==''"

definition strict_host :: host where
  "strict_host m \<longleftrightarrow> \<not> list_ex ends_with_operator (install_requires m)"

subsection \<open>The manifest as the spec describes it\<close>

text \<open>
  The spec speaks of the lines of the manifest, of non-empty lines and of stripped lines.
  The script has none of these notions; they are defined here to state the spec's
  sentences, and are no part of the script.

  \<open>unlines ls\<close> is the text of a file whose lines are \<open>ls\<close>, each ended by \<^verbatim>\<open>\n\<close>.
\<close>

definition unlines :: "pystr list \<Rightarrow> pystr" where
  "unlines ls = concat (map (\<lambda>l. l @ [LF]) ls)"

text \<open>
  Whitespace as \<^verbatim>\<open>str.strip()\<close> removes it (the code points for which \<^verbatim>\<open>str.isspace\<close>
  holds), and \<^verbatim>\<open>str.strip()\<close> itself.
\<close>

definition is_space :: "codepoint \<Rightarrow> bool" where
  "is_space c \<longleftrightarrow>
     (9 \<le> c \<and> c \<le> 13) \<or> (28 \<le> c \<and> c \<le> 32) \<or> c = 133 \<or> c = 160 \<or> c = 5760
     \<or> (8192 \<le> c \<and> c \<le> 8202) \<or> c = 8232 \<or> c = 8233 \<or> c = 8239 \<or> c = 8287
     \<or> c = 12288"

definition strip :: "pystr \<Rightarrow> pystr" where
  "strip s = rev (dropWhile is_space (rev (dropWhile is_space s)))"

text \<open>
  The requirements as the spec's first testable property words them: one entry for each
  non-empty line, the line with surrounding whitespace stripped.
\<close>

definition stripped_nonempty :: "pystr list \<Rightarrow> pystr list" where
  "stripped_nonempty ls = map strip (filter (\<lambda>l. l \<noteq> []) ls)"

section \<open>Properties of \<^verbatim>\<open>splitlines\<close> and of reading in text mode\<close>

lemma splitlines_Nil [simp]: "splitlines [] = []"
  by (simp add: splitlines.simps)

lemma splitlines_Cons:
  "splitlines (c # s) =
     takeWhile (\<lambda>c. \<not> is_linebreak c) (c # s)
       # splitlines (skip_break (dropWhile (\<lambda>c. \<not> is_linebreak c) (c # s)))"
  by (subst splitlines.simps) simp

lemma is_linebreak_LF [simp]: "is_linebreak LF"
  by (simp add: is_linebreak_def LF_def)

lemma is_linebreak_CR [simp]: "is_linebreak CR"
  by (simp add: is_linebreak_def CR_def)

lemma LF_neq_CR [simp]: "LF \<noteq> CR" "CR \<noteq> LF"
  by (simp_all add: LF_def CR_def)

lemma skip_break_not_CR: "c \<noteq> CR \<Longrightarrow> skip_break (c # s) = s"
  by (cases s) simp_all

lemma splitlines_line:
  assumes "\<forall>c\<in>set l. \<not> is_linebreak c" and "is_linebreak b"
  shows "splitlines (l @ b # t) = l # splitlines (skip_break (b # t))"
proof -
  have "takeWhile (\<lambda>c. \<not> is_linebreak c) (l @ b # t) = l"
    using assms by (simp add: takeWhile_append2)
  moreover have "dropWhile (\<lambda>c. \<not> is_linebreak c) (l @ b # t) = b # t"
    using assms by (simp add: dropWhile_append2)
  ultimately show ?thesis
    by (subst splitlines.simps) simp
qed

lemma splitlines_unterminated:
  assumes "l \<noteq> []" and "\<forall>c\<in>set l. \<not> is_linebreak c"
  shows "splitlines l = [l]"
proof -
  have tw: "takeWhile (\<lambda>c. \<not> is_linebreak c) l = l"
    using assms by simp
  have dw: "dropWhile (\<lambda>c. \<not> is_linebreak c) l = []"
    using assms by simp
  have "splitlines l = takeWhile (\<lambda>c. \<not> is_linebreak c) l
      # splitlines (skip_break (dropWhile (\<lambda>c. \<not> is_linebreak c) l))"
    using assms(1) by (subst splitlines.simps) (simp only: if_False)
  then show ?thesis
    unfolding tw dw by simp
qed

lemma splitlines_no_linebreak:
  "e \<in> set (splitlines s) \<Longrightarrow> c \<in> set e \<Longrightarrow> \<not> is_linebreak c"
proof (induction s rule: splitlines.induct)
  case (1 s)
  show ?case
  proof (cases "s = []")
    case True
    with "1.prems" show ?thesis by simp
  next
    case False
    from "1.prems"(1) False
    consider "e = takeWhile (\<lambda>c. \<not> is_linebreak c) s"
      | "e \<in> set (splitlines (skip_break (dropWhile (\<lambda>c. \<not> is_linebreak c) s)))"
      by (subst (asm) splitlines.simps) auto
    then show ?thesis
    proof cases
      case 1
      with "1.prems"(2) show ?thesis
        by (auto dest: set_takeWhileD)
    next
      case 2
      with "1.IH" False "1.prems"(2) show ?thesis
        by blast
    qed
  qed
qed

lemma universal_newlines_not_CR: "c \<noteq> CR \<Longrightarrow> universal_newlines (c # s) = c # universal_newlines s"
  by (cases s) simp_all

lemma universal_newlines_line:
  "\<forall>c\<in>set l. \<not> is_linebreak c \<Longrightarrow> universal_newlines (l @ t) = l @ universal_newlines t"
proof (induction l)
  case Nil
  show ?case by simp
next
  case (Cons c l)
  then have "c \<noteq> CR"
    by auto
  with Cons show ?case
    by (simp add: universal_newlines_not_CR)
qed

lemma universal_newlines_break:
  "universal_newlines (b # t) = (if b = CR then LF else b) # universal_newlines (skip_break (b # t))"
  by (cases t) simp_all

lemma splitlines_universal_newlines: "splitlines (universal_newlines s) = splitlines s"
proof (induction s rule: splitlines.induct)
  case (1 s)
  let ?l = "takeWhile (\<lambda>c. \<not> is_linebreak c) s"
  let ?r = "dropWhile (\<lambda>c. \<not> is_linebreak c) s"
  have line: "\<forall>c\<in>set ?l. \<not> is_linebreak c"
    by (auto dest: set_takeWhileD)
  have s: "s = ?l @ ?r"
    by simp
  show ?case
  proof (cases "?r")
    case Nil
    then have "\<forall>c\<in>set s. \<not> is_linebreak c"
      by simp
    then have "universal_newlines (s @ []) = s @ universal_newlines []"
      by (rule universal_newlines_line)
    then show ?thesis by simp
  next
    case (Cons b t)
    then have b: "is_linebreak b"
      using hd_dropWhile [of "\<lambda>c. \<not> is_linebreak c" s] by fastforce
    let ?b = "if b = CR then LF else b"
    have b': "is_linebreak ?b" "?b \<noteq> CR"
      using b by simp_all
    have nonempty: "s \<noteq> []"
      using Cons by auto
    have "universal_newlines s = universal_newlines (?l @ ?r)"
      by simp
    also have "\<dots> = ?l @ universal_newlines ?r"
      using line by (rule universal_newlines_line)
    also have "universal_newlines ?r = ?b # universal_newlines (skip_break ?r)"
      unfolding Cons by (rule universal_newlines_break)
    finally have "universal_newlines s = ?l @ ?b # universal_newlines (skip_break ?r)" .
    then have "splitlines (universal_newlines s)
        = ?l # splitlines (skip_break (?b # universal_newlines (skip_break ?r)))"
      using splitlines_line [OF line b'(1)] by simp
    also have "\<dots> = ?l # splitlines (universal_newlines (skip_break ?r))"
      using skip_break_not_CR [OF b'(2)] by simp
    also have "\<dots> = ?l # splitlines (skip_break ?r)"
      using "1.IH" [OF nonempty] by simp
    also have "\<dots> = splitlines s"
      using nonempty by (subst (2) splitlines.simps) simp
    finally show ?thesis .
  qed
qed

lemma requirements_of_splitlines: "requirements_of s = splitlines s"
  by (simp add: requirements_of_def splitlines_universal_newlines)

lemma unlines_Nil [simp]: "unlines [] = []"
  by (simp add: unlines_def)

lemma unlines_Cons [simp]: "unlines (l # ls) = l @ LF # unlines ls"
  by (simp add: unlines_def)

lemma unlines_append: "unlines (xs @ ys) = unlines xs @ unlines ys"
  by (simp add: unlines_def)

lemma splitlines_unlines_final:
  assumes "\<forall>l\<in>set ls. \<forall>c\<in>set l. \<not> is_linebreak c" and "\<forall>c\<in>set final. \<not> is_linebreak c"
  shows "splitlines (unlines ls @ final) = ls @ (if final = [] then [] else [final])"
  using assms(1)
proof (induction ls)
  case Nil
  show ?case
    using assms(2) by (simp add: splitlines_unterminated)
next
  case (Cons l ls)
  then have "\<forall>c\<in>set l. \<not> is_linebreak c"
    by simp
  then have "splitlines (l @ LF # (unlines ls @ final))
      = l # splitlines (skip_break (LF # (unlines ls @ final)))"
    by (rule splitlines_line) simp
  also have "skip_break (LF # (unlines ls @ final)) = unlines ls @ final"
    by (rule skip_break_not_CR) simp
  finally show ?case
    using Cons by simp
qed

lemma splitlines_unlines:
  "\<forall>l\<in>set ls. \<forall>c\<in>set l. \<not> is_linebreak c \<Longrightarrow> splitlines (unlines ls) = ls"
  using splitlines_unlines_final [of ls "[]"] by simp

lemma stripped_nonempty_id:
  "stripped_nonempty ls = ls \<longleftrightarrow> (\<forall>l\<in>set ls. l \<noteq> [] \<and> strip l = l)"
proof
  assume eq: "stripped_nonempty ls = ls"
  then have "length (filter (\<lambda>l. l \<noteq> []) ls) = length ls"
    by (metis length_map stripped_nonempty_def)
  then have all: "filter (\<lambda>l. l \<noteq> []) ls = ls"
    by (metis length_filter_less less_irrefl filter_True)
  then have ne: "\<forall>l\<in>set ls. l \<noteq> []"
    by (simp add: filter_id_conv)
  from eq all have "map strip ls = ls"
    by (simp add: stripped_nonempty_def)
  then have "\<forall>l\<in>set ls. strip l = l"
    by (metis list.map_id map_eq_conv id_apply)
  with ne show "\<forall>l\<in>set ls. l \<noteq> [] \<and> strip l = l"
    by simp
next
  assume all: "\<forall>l\<in>set ls. l \<noteq> [] \<and> strip l = l"
  then have "filter (\<lambda>l. l \<noteq> []) ls = ls"
    by (simp add: filter_id_conv)
  moreover from all have "map strip ls = ls"
    by (simp add: map_idI)
  ultimately show "stripped_nonempty ls = ls"
    by (simp add: stripped_nonempty_def)
qed

lemma skip_break_suffix: "\<exists>p. s = p @ skip_break s"
  by (induction s rule: skip_break.induct) auto

lemma splitlines_append:
  "a = [] \<or> (is_linebreak (last a) \<and> \<not> (last a = CR \<and> t \<noteq> [] \<and> hd t = LF))
   \<Longrightarrow> splitlines (a @ t) = splitlines a @ splitlines t"
proof (induction a rule: splitlines.induct)
  case (1 a)
  show ?case
  proof (cases "a = []")
    case True
    then show ?thesis by simp
  next
    case False
    with "1.prems" have last: "is_linebreak (last a)"
      and crlf: "\<not> (last a = CR \<and> t \<noteq> [] \<and> hd t = LF)"
      by simp_all
    let ?l = "takeWhile (\<lambda>c. \<not> is_linebreak c) a"
    let ?r = "dropWhile (\<lambda>c. \<not> is_linebreak c) a"
    have line: "\<forall>c\<in>set ?l. \<not> is_linebreak c"
      by (auto dest: set_takeWhileD)
    have "?r \<noteq> []"
      using last False by (metis dropWhile_eq_Nil_conv last_in_set)
    then obtain b r where r: "?r = b # r"
      by (cases ?r) auto
    then have b: "is_linebreak b"
      using hd_dropWhile [of "\<lambda>c. \<not> is_linebreak c" a] by fastforce
    have a: "a = ?l @ b # r"
      using r by (metis takeWhile_dropWhile_id)
    have lhs: "splitlines (a @ t) = ?l # splitlines (skip_break (b # r @ t))"
      using splitlines_line [OF line b, of "r @ t"] a by (metis append_Cons append_assoc)
    have rhs: "splitlines a = ?l # splitlines (skip_break (b # r))"
      using splitlines_line [OF line b, of r] a by metis
    have "splitlines (skip_break (b # r @ t)) = splitlines (skip_break (b # r)) @ splitlines t"
    proof (cases r)
      case Nil
      then have "last a = b"
        using a by (metis last_appendR last_ConsL list.distinct(1))
      with crlf have "skip_break (b # t) = t"
        by (cases t) auto
      with Nil show ?thesis by simp
    next
      case (Cons d r')
      let ?u = "skip_break (b # r)"
      have u: "skip_break (b # r @ t) = ?u @ t"
        using Cons by simp
      have "?u = [] \<or> (is_linebreak (last ?u) \<and> \<not> (last ?u = CR \<and> t \<noteq> [] \<and> hd t = LF))"
      proof (cases "?u = []")
        case True
        then show ?thesis by simp
      next
        case False
        obtain p where "b # r = p @ ?u"
          using skip_break_suffix by blast
        with a have "a = (?l @ p) @ ?u"
          by simp
        with False have "last ?u = last a"
          by (metis last_appendR)
        with last crlf show ?thesis by simp
      qed
      then have "splitlines (?u @ t) = splitlines ?u @ splitlines t"
        using "1.IH" [OF False] r by simp
      with u show ?thesis by simp
    qed
    with lhs rhs show ?thesis by simp
  qed
qed

lemmas eval_simps = str_def LF_def CR_def is_linebreak_def splitlines_Cons requirements_of_def

section \<open>The script, run\<close>

lemma setup_py_readable:
  assumes "files w (str ''requirements.txt'') = Some raw"
  shows "setup_py w =
    (Inr (),
     w\<lparr>registered := registered w @
        [\<lparr>name = str ''Machine Efficiency Prediction'', version = str ''0.1'',
          author = str ''David G'', packages = found_packages w,
          install_requires = splitlines raw\<rparr>]\<rparr>)"
  using assms
  by (simp add: setup_py_def open_read_def setup_call_def find_packages_def
      splitlines_universal_newlines)

lemma setup_py_unreadable:
  assumes "files w (str ''requirements.txt'') = None"
  shows "setup_py w = (Inl ManifestUnreadable, w)"
  using assms by (simp add: setup_py_def open_read_def)

lemma setup_py_checked_readable:
  assumes "files w (str ''requirements.txt'') = Some raw"
  shows "setup_py_checked accepts w =
    (let m = \<lparr>name = str ''Machine Efficiency Prediction'', version = str ''0.1'',
               author = str ''David G'', packages = found_packages w,
               install_requires = requirements_of raw\<rparr>
     in if accepts m then (Inr (Inr ()), w\<lparr>registered := registered w @ [m]\<rparr>)
        else (Inr (Inl SetupRejected), w))"
  using assms
  by (simp add: setup_py_checked_def setup_checked_def open_read_def setup_call_def
      find_packages_def requirements_of_def Let_def)

lemma setup_py_checked_accepting:
  "setup_py_checked (\<lambda>m. True) w = (map_sum id Inr (fst (setup_py w)), snd (setup_py w))"
  by (simp add: setup_py_checked_def setup_py_def setup_checked_def Let_def split: sum.splits)

section \<open>The requirements list\<close>

text \<open>
  C1, as the code has it. For a manifest made of \<open>N\<close> lines, each free of line
  boundaries and ended by \<^verbatim>\<open>\n\<close>, the requirements are exactly these \<open>N\<close> lines, in file
  order and as written: a blank line gives an empty entry and surrounding whitespace
  stays. So the list has one entry per non-empty line, each the stripped line, exactly
  when no line is blank and no line carries surrounding whitespace.
\<close>

theorem requirements_of_unlines:
  assumes "\<forall>l\<in>set ls. \<forall>c\<in>set l. \<not> is_linebreak c"
  shows "requirements_of (unlines ls) = ls
    \<and> length (requirements_of (unlines ls)) = length ls
    \<and> (requirements_of (unlines ls) = stripped_nonempty ls
         \<longleftrightarrow> (\<forall>l\<in>set ls. l \<noteq> [] \<and> strip l = l))"
proof -
  have "requirements_of (unlines ls) = ls"
    using assms by (simp add: requirements_of_splitlines splitlines_unlines)
  then show ?thesis
    using stripped_nonempty_id [of ls] by auto
qed

theorem requirements_of_unlines_witness:
  "list_all (list_all (\<lambda>c. \<not> is_linebreak c)) [str ''numpy==1.21.0'', str ''pandas'']
   \<and> list_all (\<lambda>l. l \<noteq> [] \<and> strip l = l) [str ''numpy==1.21.0'', str ''pandas'']
   \<and> requirements_of (unlines [str ''numpy==1.21.0'', str ''pandas''])
       = [str ''numpy==1.21.0'', str ''pandas'']
   \<and> requirements_of (unlines [str ''numpy==1.21.0'', str ''pandas''])
       = stripped_nonempty [str ''numpy==1.21.0'', str ''pandas'']"
proof -
  let ?ls = "[str ''numpy==1.21.0'', str ''pandas'']"
  have h: "\<forall>l\<in>set ?ls. \<forall>c\<in>set l. \<not> is_linebreak c"
    by (simp add: str_def is_linebreak_def)
  have s: "\<forall>l\<in>set ?ls. l \<noteq> [] \<and> strip l = l"
    by (simp add: str_def strip_def is_space_def)
  note t = requirements_of_unlines [OF h]
  from t have "requirements_of (unlines ?ls) = ?ls"
    by (rule conjunct1)
  moreover from t s have "requirements_of (unlines ?ls) = stripped_nonempty ?ls"
    by blast
  moreover from h have "list_all (list_all (\<lambda>c. \<not> is_linebreak c)) ?ls"
    by (auto simp: list_all_iff)
  moreover from s have "list_all (\<lambda>l. l \<noteq> [] \<and> strip l = l) ?ls"
    by (simp only: list_all_iff)
  ultimately show ?thesis
    by blast
qed

text \<open>
  C1 as the spec words it fails twice. The manifest \<^verbatim>\<open>"numpy\n\npandas\n"\<close> has two
  non-empty lines and three entries; the manifest \<^verbatim>\<open>" numpy \n"\<close> gives the entry
  \<^verbatim>\<open>" numpy "\<close>, not the stripped \<^verbatim>\<open>"numpy"\<close>.
\<close>

theorem requirements_not_stripped_counterexample:
  "length (requirements_of (unlines [str ''numpy'', str '''', str ''pandas''])) = 3
   \<and> length (stripped_nonempty [str ''numpy'', str '''', str ''pandas'']) = 2
   \<and> requirements_of (unlines [str '' numpy '']) = [str '' numpy '']
   \<and> stripped_nonempty [str '' numpy ''] = [str ''numpy'']"
  by (simp add: eval_simps stripped_nonempty_def strip_def is_space_def)

text \<open>
  C4. The empty manifest gives no requirement, and the script succeeds: it registers
  one record, whose \<open>install_requires\<close> is the empty list.
\<close>

theorem empty_manifest:
  assumes "files w (str ''requirements.txt'') = Some []"
  shows "requirements_of [] = []
    \<and> fst (setup_py w) = Inr ()
    \<and> (\<exists>m. registered (snd (setup_py w)) = registered w @ [m] \<and> install_requires m = [])"
  using setup_py_readable [OF assms] by (simp add: requirements_of_def)

theorem empty_manifest_witness:
  "files \<lparr>files = [str ''requirements.txt'' \<mapsto> []], found_packages = [], registered = []\<rparr>
      (str ''requirements.txt'') = Some []
   \<and> fst (setup_py \<lparr>files = [str ''requirements.txt'' \<mapsto> []], found_packages = [],
        registered = []\<rparr>) = Inr ()
   \<and> map install_requires (registered (snd (setup_py
        \<lparr>files = [str ''requirements.txt'' \<mapsto> []], found_packages = [],
          registered = []\<rparr>))) = [[]]"
proof -
  let ?w = "\<lparr>files = [str ''requirements.txt'' \<mapsto> []], found_packages = [], registered = []\<rparr>"
  have h: "files ?w (str ''requirements.txt'') = Some []"
    by simp
  from empty_manifest [OF h]
  obtain m where "fst (setup_py ?w) = Inr ()"
    and "registered (snd (setup_py ?w)) = registered ?w @ [m]" and "install_requires m = []"
    by blast
  then show ?thesis
    using h by simp
qed

text \<open>
  C5. The manifest \<^verbatim>\<open>"numpy==1.21.0\npandas\n"\<close> gives the two requirements
  \<^verbatim>\<open>"numpy==1.21.0"\<close> and \<^verbatim>\<open>"pandas"\<close>; the newline at the end opens no third entry.
\<close>

theorem requirements_example:
  "requirements_of (str ''numpy==1.21.0\<newline>pandas\<newline>'')
     = [str ''numpy==1.21.0'', str ''pandas'']"
  by (simp add: eval_simps)

text \<open>
  C6. A blank line is a line that ends where it starts: the text \<open>a\<close> before it is
  empty or ends in a line boundary, and the next character \<open>c\<close> is a line boundary
  again (and not the \<^verbatim>\<open>\n\<close> of a \<^verbatim>\<open>\r\n\<close> begun in \<open>a\<close>). The requirements are then
  those of \<open>a\<close>, an empty entry for the blank line, and those of the text behind the
  blank line: the empty entry stands at the position of the blank line, and nothing is
  skipped.
\<close>

theorem blank_line_entry:
  assumes "a = [] \<or> is_linebreak (last a)"
      and "is_linebreak c"
      and "\<not> (a \<noteq> [] \<and> last a = CR \<and> c = LF)"
  shows "requirements_of (a @ c # b)
      = requirements_of a @ [] # requirements_of (skip_break (c # b))"
proof -
  have "splitlines (a @ c # b) = splitlines a @ splitlines (c # b)"
    using assms by (intro splitlines_append) auto
  also have "splitlines (c # b) = [] # splitlines (skip_break (c # b))"
    using splitlines_line [of "[]" c b] assms(2) by simp
  finally show ?thesis
    by (simp add: requirements_of_splitlines)
qed

theorem blank_line_entry_witness:
  "(str ''numpy\<newline>'' = [] \<or> is_linebreak (last (str ''numpy\<newline>'')))
   \<and> is_linebreak LF
   \<and> \<not> (str ''numpy\<newline>'' \<noteq> [] \<and> last (str ''numpy\<newline>'') = CR \<and> LF = LF)
   \<and> requirements_of (str ''numpy\<newline>'' @ LF # str ''pandas\<newline>'')
       = [str ''numpy'', [], str ''pandas'']"
proof -
  have h1: "str ''numpy\<newline>'' = [] \<or> is_linebreak (last (str ''numpy\<newline>''))"
    by (simp add: str_def is_linebreak_def)
  have h2: "is_linebreak LF"
    by simp
  have h3: "\<not> (str ''numpy\<newline>'' \<noteq> [] \<and> last (str ''numpy\<newline>'') = CR \<and> LF = LF)"
    by (simp add: str_def CR_def)
  have parts: "requirements_of (str ''numpy\<newline>'') = [str ''numpy'']"
    "requirements_of (skip_break (LF # str ''pandas\<newline>'')) = [str ''pandas'']"
    by (simp_all add: eval_simps)
  show ?thesis
    using h1 h2 h3 blank_line_entry [OF h1 h2 h3, of "str ''pandas\<newline>''"] parts by simp
qed

text \<open>
  C7, as the code has it. The script keeps every line, so an entry is empty where a line
  is blank. For a manifest whose lines are all non-empty (each free of line boundaries
  and ended by \<^verbatim>\<open>\n\<close>), every entry of the requirements list is a non-empty string.
\<close>

theorem requirements_nonempty:
  assumes "\<forall>l\<in>set ls. l \<noteq> [] \<and> (\<forall>c\<in>set l. \<not> is_linebreak c)"
  shows "\<forall>e\<in>set (requirements_of (unlines ls)). e \<noteq> []"
proof -
  have "requirements_of (unlines ls) = ls"
    using assms by (simp add: requirements_of_splitlines splitlines_unlines)
  with assms show ?thesis
    by simp
qed

theorem requirements_nonempty_witness:
  "list_all (\<lambda>l. l \<noteq> [] \<and> list_all (\<lambda>c. \<not> is_linebreak c) l) [str ''numpy'', str ''pandas'']
   \<and> str ''numpy'' \<in> set (requirements_of (unlines [str ''numpy'', str ''pandas'']))
   \<and> str ''numpy'' \<noteq> []"
proof -
  let ?ls = "[str ''numpy'', str ''pandas'']"
  have h: "\<forall>l\<in>set ?ls. l \<noteq> [] \<and> (\<forall>c\<in>set l. \<not> is_linebreak c)"
    by (simp add: str_def is_linebreak_def)
  then have l: "list_all (\<lambda>l. l \<noteq> [] \<and> list_all (\<lambda>c. \<not> is_linebreak c) l) ?ls"
    by (auto simp: list_all_iff)
  have m: "str ''numpy'' \<in> set (requirements_of (unlines ?ls))"
    by (simp add: eval_simps)
  show ?thesis
    using l m requirements_nonempty [OF h] by blast
qed

text \<open>
  C7 as the spec words it fails: the manifest \<^verbatim>\<open>"numpy\n\npandas\n"\<close> has the empty
  string among its requirements.
\<close>

theorem requirements_empty_entry_counterexample:
  "[] \<in> set (requirements_of (str ''numpy\<newline>\<newline>pandas\<newline>''))"
  by (simp add: eval_simps)

text \<open>
  C10. No entry of the requirements holds a line terminator: neither \<^verbatim>\<open>\n\<close> nor \<^verbatim>\<open>\r\<close>,
  nor any other line boundary of \<^verbatim>\<open>splitlines\<close>. This holds for every content of the file,
  whatever its line endings (\<^verbatim>\<open>\n\<close>, \<^verbatim>\<open>\r\n\<close>, a lone \<^verbatim>\<open>\r\<close>).
\<close>

theorem requirements_no_line_terminator:
  "\<forall>e\<in>set (requirements_of s). LF \<notin> set e \<and> CR \<notin> set e \<and> (\<forall>c\<in>set e. \<not> is_linebreak c)"
proof
  fix e
  assume "e \<in> set (requirements_of s)"
  then have "e \<in> set (splitlines s)"
    by (simp add: requirements_of_splitlines)
  then have free: "\<forall>c\<in>set e. \<not> is_linebreak c"
    using splitlines_no_linebreak by blast
  then have "LF \<notin> set e" and "CR \<notin> set e"
    using is_linebreak_LF is_linebreak_CR by blast+
  with free show "LF \<notin> set e \<and> CR \<notin> set e \<and> (\<forall>c\<in>set e. \<not> is_linebreak c)"
    by simp
qed

theorem requirements_no_line_terminator_witness:
  "requirements_of (str ''numpy'' @ [CR, LF] @ str ''pandas'' @ [CR] @ str ''scipy'' @ [LF])
     = [str ''numpy'', str ''pandas'', str ''scipy'']
   \<and> LF \<notin> set (str ''pandas'') \<and> CR \<notin> set (str ''pandas'')"
proof -
  let ?s = "str ''numpy'' @ [CR, LF] @ str ''pandas'' @ [CR] @ str ''scipy'' @ [LF]"
  have r: "requirements_of ?s = [str ''numpy'', str ''pandas'', str ''scipy'']"
    by (simp add: eval_simps)
  then have "str ''pandas'' \<in> set (requirements_of ?s)"
    by simp
  with r show ?thesis
    using requirements_no_line_terminator [of ?s] by blast
qed

section \<open>The run of the script\<close>

text \<open>
  C2. When the manifest cannot be opened or read, the script fails with
  ManifestUnreadable, the one error of its kind; nothing catches it, and the world is left
  as it was: \<^verbatim>\<open>setup\<close> is not called and nothing is registered.
\<close>

theorem missing_manifest_fails:
  assumes "files w (str ''requirements.txt'') = None"
  shows "fst (setup_py w) = Inl ManifestUnreadable \<and> snd (setup_py w) = w
    \<and> registered (snd (setup_py w)) = registered w"
  using setup_py_unreadable [OF assms] by simp

theorem missing_manifest_fails_witness:
  "files \<lparr>files = Map.empty, found_packages = [str ''src''], registered = []\<rparr>
      (str ''requirements.txt'') = None
   \<and> fst (setup_py \<lparr>files = Map.empty, found_packages = [str ''src''], registered = []\<rparr>)
       = Inl ManifestUnreadable
   \<and> registered (snd (setup_py
        \<lparr>files = Map.empty, found_packages = [str ''src''], registered = []\<rparr>)) = []"
proof -
  let ?w = "\<lparr>files = Map.empty, found_packages = [str ''src''], registered = []\<rparr>"
  have h: "files ?w (str ''requirements.txt'') = None"
    by simp
  show ?thesis
    using h missing_manifest_fails [OF h] by simp
qed

text \<open>
  C3, as the code has it. With a manifest that exists and can be read, the error
  ManifestUnreadable cannot occur: the script builds the record and calls \<^verbatim>\<open>setup\<close> with
  it. The run then succeeds, with exactly this record registered, when the host accepts
  the record, and fails inside \<^verbatim>\<open>setup\<close>, with nothing registered, when the host refuses
  it. The unreadable manifest is the only failure of the script's own code, not the only
  failure of the program.
\<close>

theorem readable_manifest_reaches_setup:
  assumes "files w (str ''requirements.txt'') = Some raw"
  shows "fst (setup_py_checked accepts w) \<noteq> Inl ManifestUnreadable
    \<and> setup_py_checked accepts w =
       (let m = \<lparr>name = str ''Machine Efficiency Prediction'', version = str ''0.1'',
                  author = str ''David G'', packages = found_packages w,
                  install_requires = requirements_of raw\<rparr>
        in if accepts m then (Inr (Inr ()), w\<lparr>registered := registered w @ [m]\<rparr>)
           else (Inr (Inl SetupRejected), w))"
proof -
  note run = setup_py_checked_readable [OF assms, of accepts]
  then have "fst (setup_py_checked accepts w) \<noteq> Inl ManifestUnreadable"
    by (simp add: Let_def)
  with run show ?thesis
    by blast
qed

theorem readable_manifest_reaches_setup_witness:
  "setup_py_checked strict_host
      \<lparr>files = [str ''requirements.txt'' \<mapsto> str ''numpy\<newline>''], found_packages = [str ''src''],
        registered = []\<rparr>
    = (Inr (Inr ()),
       \<lparr>files = [str ''requirements.txt'' \<mapsto> str ''numpy\<newline>''], found_packages = [str ''src''],
         registered =
           [\<lparr>name = str ''Machine Efficiency Prediction'', version = str ''0.1'',
             author = str ''David G'', packages = [str ''src''],
             install_requires = [str ''numpy'']\<rparr>]\<rparr>)"
proof -
  let ?raw = "str ''numpy\<newline>''"
  let ?w = "\<lparr>files = [str ''requirements.txt'' \<mapsto> ?raw], found_packages = [str ''src''],
      registered = []\<rparr>"
  have h: "files ?w (str ''requirements.txt'') = Some ?raw"
    by simp
  have reqs: "requirements_of ?raw = [str ''numpy'']"
    by (simp add: eval_simps)
  have accepted: "strict_host \<lparr>name = str ''Machine Efficiency Prediction'', version = str ''0.1'',
      author = str ''David G'', packages = found_packages ?w, install_requires = [str ''numpy'']\<rparr>"
    by (simp add: strict_host_def ends_with_operator_def str_def)
  from readable_manifest_reaches_setup [OF h, of strict_host]
  have "setup_py_checked strict_host ?w =
       (let m = \<lparr>name = str ''Machine Efficiency Prediction'', version = str ''0.1'',
                  author = str ''David G'', packages = found_packages ?w,
                  install_requires = requirements_of ?raw\<rparr>
        in if strict_host m then (Inr (Inr ()), ?w\<lparr>registered := registered ?w @ [m]\<rparr>)
           else (Inr (Inl SetupRejected), ?w))"
    by (rule conjunct2)
  then show ?thesis
    unfolding reqs Let_def using accepted by simp
qed

text \<open>
  C3 as the spec words it fails: the manifest \<^verbatim>\<open>"numpy==\n"\<close> exists and is read, and
  the run fails all the same, inside \<^verbatim>\<open>setup\<close>, on a host that refuses the entry
  \<^verbatim>\<open>numpy==\<close>.
\<close>

theorem readable_manifest_rejected_counterexample:
  "files \<lparr>files = [str ''requirements.txt'' \<mapsto> str ''numpy==\<newline>''], found_packages = [],
      registered = []\<rparr> (str ''requirements.txt'') = Some (str ''numpy==\<newline>'')
   \<and> setup_py_checked strict_host
        \<lparr>files = [str ''requirements.txt'' \<mapsto> str ''numpy==\<newline>''], found_packages = [],
          registered = []\<rparr>
     = (Inr (Inl SetupRejected),
        \<lparr>files = [str ''requirements.txt'' \<mapsto> str ''numpy==\<newline>''], found_packages = [],
          registered = []\<rparr>)"
  by (simp add: setup_py_checked_def setup_checked_def open_read_def find_packages_def
      strict_host_def ends_with_operator_def eval_simps Let_def)

text \<open>
  C8. With a readable manifest the script calls \<^verbatim>\<open>setup\<close> once, with a record of exactly
  the fields \<open>name\<close>, \<open>version\<close>, \<open>author\<close>, \<open>packages\<close> and \<open>install_requires\<close>: the three
  fixed strings, the packages that \<^verbatim>\<open>find_packages()\<close> found, and the requirements split
  from the whole contents of the file. The split is in file order: when the contents
  are the lines \<open>ls\<close>, each ended by \<^verbatim>\<open>\n\<close>, and then a last line \<open>final\<close> without an
  ending, the requirements are \<open>ls\<close> and then \<open>final\<close> (left out when it is empty).
\<close>

theorem metadata_record:
  assumes "files w (str ''requirements.txt'') = Some raw"
  shows "setup_py w =
    (Inr (),
     w\<lparr>registered := registered w @
        [\<lparr>name = str ''Machine Efficiency Prediction'', version = str ''0.1'',
          author = str ''David G'', packages = found_packages w,
          install_requires = requirements_of raw\<rparr>]\<rparr>)
    \<and> (\<forall>ls final.
          (\<forall>l\<in>set (final # ls). \<forall>c\<in>set l. \<not> is_linebreak c) \<and> raw = unlines ls @ final
          \<longrightarrow> requirements_of raw = ls @ (if final = [] then [] else [final]))"
proof -
  have "\<forall>ls final.
          (\<forall>l\<in>set (final # ls). \<forall>c\<in>set l. \<not> is_linebreak c) \<and> raw = unlines ls @ final
          \<longrightarrow> requirements_of raw = ls @ (if final = [] then [] else [final])"
    using splitlines_unlines_final by (simp add: requirements_of_splitlines)
  then show ?thesis
    using setup_py_readable [OF assms] by (simp add: requirements_of_splitlines)
qed

theorem metadata_record_witness:
  "files \<lparr>files = [str ''requirements.txt'' \<mapsto> str ''numpy==1.21.0\<newline>pandas''],
      found_packages = [str ''src''], registered = []\<rparr> (str ''requirements.txt'')
     = Some (str ''numpy==1.21.0\<newline>pandas'')
   \<and> list_all (list_all (\<lambda>c. \<not> is_linebreak c)) [str ''pandas'', str ''numpy==1.21.0'']
   \<and> str ''numpy==1.21.0\<newline>pandas'' = unlines [str ''numpy==1.21.0''] @ str ''pandas''
   \<and> registered (snd (setup_py
        \<lparr>files = [str ''requirements.txt'' \<mapsto> str ''numpy==1.21.0\<newline>pandas''],
          found_packages = [str ''src''], registered = []\<rparr>))
     = [\<lparr>name = str ''Machine Efficiency Prediction'', version = str ''0.1'',
         author = str ''David G'', packages = [str ''src''],
         install_requires = [str ''numpy==1.21.0'', str ''pandas'']\<rparr>]"
proof -
  let ?raw = "str ''numpy==1.21.0\<newline>pandas''"
  let ?w = "\<lparr>files = [str ''requirements.txt'' \<mapsto> ?raw], found_packages = [str ''src''],
      registered = []\<rparr>"
  have h: "files ?w (str ''requirements.txt'') = Some ?raw"
    by simp
  have free: "\<forall>l\<in>set [str ''pandas'', str ''numpy==1.21.0'']. \<forall>c\<in>set l. \<not> is_linebreak c"
    by (simp add: str_def is_linebreak_def)
  have shape: "?raw = unlines [str ''numpy==1.21.0''] @ str ''pandas''"
    by (simp add: str_def LF_def)
  have nonempty: "str ''pandas'' \<noteq> []"
    by (simp add: str_def)
  note t = metadata_record [OF h]
  from t have "(\<forall>l\<in>set [str ''pandas'', str ''numpy==1.21.0'']. \<forall>c\<in>set l. \<not> is_linebreak c)
      \<and> ?raw = unlines [str ''numpy==1.21.0''] @ str ''pandas''
    \<longrightarrow> requirements_of ?raw
        = [str ''numpy==1.21.0''] @ (if str ''pandas'' = [] then [] else [str ''pandas''])"
    by blast
  with free shape nonempty
  have reqs: "requirements_of ?raw = [str ''numpy==1.21.0'', str ''pandas'']"
    by (simp only: simp_thms if_False append_Cons append_Nil)
  from t have run: "setup_py ?w =
    (Inr (),
     ?w\<lparr>registered := registered ?w @
        [\<lparr>name = str ''Machine Efficiency Prediction'', version = str ''0.1'',
          author = str ''David G'', packages = found_packages ?w,
          install_requires = requirements_of ?raw\<rparr>]\<rparr>)"
    by (rule conjunct1)
  have "registered (snd (setup_py ?w))
      = [\<lparr>name = str ''Machine Efficiency Prediction'', version = str ''0.1'',
          author = str ''David G'', packages = [str ''src''],
          install_requires = [str ''numpy==1.21.0'', str ''pandas'']\<rparr>]"
    unfolding run reqs by simp
  moreover from free
  have "list_all (list_all (\<lambda>c. \<not> is_linebreak c)) [str ''pandas'', str ''numpy==1.21.0'']"
    by (auto simp: list_all_iff)
  ultimately show ?thesis
    using h shape by blast
qed

text \<open>
  C9. The script is deterministic in the contents of the manifest. Two runs that find
  the same contents, in whatever worlds, each register one record, and the two records
  have the same \<open>name\<close>, \<open>version\<close>, \<open>author\<close> and \<open>install_requires\<close>. A run leaves the
  manifest and the source tree as they are, so a second run right after the first
  registers the very same record again.
\<close>

theorem setup_py_deterministic:
  assumes "files w (str ''requirements.txt'') = Some raw"
      and "files w' (str ''requirements.txt'') = Some raw"
  shows "\<exists>m m'. registered (snd (setup_py w)) = registered w @ [m]
      \<and> registered (snd (setup_py w')) = registered w' @ [m']
      \<and> name m = name m' \<and> version m = version m' \<and> author m = author m'
      \<and> install_requires m = install_requires m'
      \<and> registered (snd (setup_py (snd (setup_py w)))) = registered w @ [m, m]"
proof -
  let ?m = "\<lambda>w. \<lparr>name = str ''Machine Efficiency Prediction'', version = str ''0.1'',
          author = str ''David G'', packages = found_packages w,
          install_requires = splitlines raw\<rparr>"
  let ?w1 = "snd (setup_py w)"
  have first: "setup_py w = (Inr (), w\<lparr>registered := registered w @ [?m w]\<rparr>)"
    using assms(1) by (rule setup_py_readable)
  have other: "setup_py w' = (Inr (), w'\<lparr>registered := registered w' @ [?m w']\<rparr>)"
    using assms(2) by (rule setup_py_readable)
  have "files ?w1 (str ''requirements.txt'') = Some raw"
    using first assms(1) by simp
  then have "setup_py ?w1 = (Inr (), ?w1\<lparr>registered := registered ?w1 @ [?m ?w1]\<rparr>)"
    by (rule setup_py_readable)
  then have second: "registered (snd (setup_py ?w1)) = registered w @ [?m w, ?m w]"
    using first by simp
  have "registered (snd (setup_py w)) = registered w @ [?m w]
      \<and> registered (snd (setup_py w')) = registered w' @ [?m w']
      \<and> name (?m w) = name (?m w') \<and> version (?m w) = version (?m w')
      \<and> author (?m w) = author (?m w')
      \<and> install_requires (?m w) = install_requires (?m w')
      \<and> registered (snd (setup_py ?w1)) = registered w @ [?m w, ?m w]"
    using first other second by simp
  then show ?thesis
    by blast
qed

theorem setup_py_deterministic_witness:
  "files \<lparr>files = [str ''requirements.txt'' \<mapsto> str ''numpy\<newline>''], found_packages = [],
      registered = []\<rparr> (str ''requirements.txt'') = Some (str ''numpy\<newline>'')
   \<and> map install_requires (registered (snd (setup_py (snd (setup_py
        \<lparr>files = [str ''requirements.txt'' \<mapsto> str ''numpy\<newline>''], found_packages = [],
          registered = []\<rparr>)))))
     = map install_requires (registered (snd (setup_py
        \<lparr>files = [str ''requirements.txt'' \<mapsto> str ''numpy\<newline>''], found_packages = [],
          registered = []\<rparr>)))
       @ map install_requires (registered (snd (setup_py
        \<lparr>files = [str ''requirements.txt'' \<mapsto> str ''numpy\<newline>''], found_packages = [],
          registered = []\<rparr>)))"
proof -
  let ?w = "\<lparr>files = [str ''requirements.txt'' \<mapsto> str ''numpy\<newline>''], found_packages = [],
      registered = []\<rparr>"
  have h: "files ?w (str ''requirements.txt'') = Some (str ''numpy\<newline>'')"
    by simp
  from setup_py_deterministic [OF h h]
  obtain m where "registered (snd (setup_py ?w)) = registered ?w @ [m]"
    and "registered (snd (setup_py (snd (setup_py ?w)))) = registered ?w @ [m, m]"
    by blast
  then show ?thesis
    using h by simp
qed

end
